theory Spec2Isabelle
  imports Main "HOL-Library.AList" "HOL-Library.Sublist"
begin

section \<open>Python values, errors and library functions used by airops\<close>

text \<open>
  Python strings are modelled as \<open>string\<close> (lists of 8-bit characters), Python lists of
  strings as \<open>string list\<close>, an optional argument whose default is \<open>None\<close> as an
  \<open>option\<close>, and a \<open>Dict[str, str]\<close> by the list of its items in insertion order.
  Every exception the modelled code can raise is a value of \<open>error\<close>; a call returns
  \<open>error + 'a\<close> with \<open>Inl\<close> the exception.
\<close>

datatype error = TypeError | AttributeError

datatype pyval = PNone | PBool bool | PInt int | PStr string

type_synonym dict = "(string \<times> string) list"

type_synonym kwargs = "(string \<times> pyval) list"

text \<open>\<open>sep.join(xs)\<close> of Python's \<open>str\<close>.\<close>

fun join :: "string \<Rightarrow> string list \<Rightarrow> string" where
  "join sep [] = []"
| "join sep [x] = x"
| "join sep (x # y # ys) = x @ sep @ join sep (y # ys)"

text \<open>
  \<open>shlex.quote\<close> of the Python standard library, which every command of airops maps
  over its argument list. Its unsafe-character pattern is
  \<open>[^\w@%+=:,./-]\<close> compiled with \<open>re.ASCII\<close>, so \<open>\w\<close> is a letter, a digit
  or the underscore.
\<close>

definition is_word_char :: "char \<Rightarrow> bool" where
  "is_word_char c =
     (let n = (of_char c :: nat)
      in (97 \<le> n \<and> n \<le> 122) \<or> (65 \<le> n \<and> n \<le> 90) \<or> (48 \<le> n \<and> n \<le> 57) \<or> n = 95)"

definition is_safe_char :: "char \<Rightarrow> bool" where
  "is_safe_char c = (is_word_char c \<or> c \<in> set ''@%+=:,./-'')"

definition find_unsafe :: "string \<Rightarrow> char option" where
  "find_unsafe s = find (\<lambda>c. \<not> is_safe_char c) s"

text \<open>\<open>s.replace("'", "'\"'\"'")\<close>: every single quote becomes the five characters
  quote, double quote, quote, double quote, quote.\<close>

definition replace_squote :: "string \<Rightarrow> string" where
  "replace_squote s =
     concat (map (\<lambda>c. if c = CHR 0x27 then [CHR 0x27, CHR 0x22, CHR 0x27, CHR 0x22, CHR 0x27]
                        else [c]) s)"

definition shlex_quote :: "string \<Rightarrow> string" where
  "shlex_quote s =
     (if s = [] then [CHR 0x27, CHR 0x27]
      else if find_unsafe s = None then s
      else [CHR 0x27] @ replace_squote s @ [CHR 0x27])"

section \<open>Flag builders (airops/docker.py, airops/vcs.py)\<close>

definition DockerRunFlag_detach :: "string list" where
  "DockerRunFlag_detach = [''-d'']"

definition DockerRunFlag_interactive :: "string list" where
  "DockerRunFlag_interactive = [''-i'']"

definition DockerRunFlag_tty :: "string list" where
  "DockerRunFlag_tty = [''-t'']"

definition DockerRunFlag_temp_container :: "string list" where
  "DockerRunFlag_temp_container = [''--rm'']"

definition DockerRunFlag_name :: "string \<Rightarrow> string list" where
  "DockerRunFlag_name name = [''--name'', name]"

text \<open>The four map builders are the same loop: \<open>arg = []\<close>, then for every item of the
  dict in iteration order \<open>arg += [flag, f"{k}<sep>{v}"]\<close>.\<close>

definition DockerRunFlag_publish :: "dict \<Rightarrow> string list" where
  "DockerRunFlag_publish ports =
     foldl (\<lambda>arg (p1, p2). arg @ [''-p'', p1 @ '':'' @ p2]) [] ports"

definition DockerRunFlag_env :: "dict \<Rightarrow> string list" where
  "DockerRunFlag_env envs =
     foldl (\<lambda>arg (name, val). arg @ [''-e'', name @ ''='' @ val]) [] envs"

definition DockerRunFlag_volume :: "dict \<Rightarrow> string list" where
  "DockerRunFlag_volume volume =
     foldl (\<lambda>arg (p1, p2). arg @ [''-v'', p1 @ '':'' @ p2]) [] volume"

definition DockerBuildFlag_build_arg :: "dict \<Rightarrow> string list" where
  "DockerBuildFlag_build_arg envs =
     foldl (\<lambda>arg (name, val). arg @ [''--build-arg'', name @ ''='' @ val]) [] envs"

definition DockerBuildFlag_file :: "string \<Rightarrow> string list" where
  "DockerBuildFlag_file f = [''-f'', f]"

definition DockerBuildFlag_no_cache :: "string list" where
  "DockerBuildFlag_no_cache = [''--no-cache'']"

definition DockerBuildFlag_target :: "string \<Rightarrow> string list" where
  "DockerBuildFlag_target t = [''--target'', t]"

definition DockerBuildFlag_pull :: "string list" where
  "DockerBuildFlag_pull = [''--pull'']"

definition DockerBuildFlag_platform :: "string \<Rightarrow> string list" where
  "DockerBuildFlag_platform platform_name = [''--platform'', platform_name]"

definition GitCloneFlag_verbose :: "string list" where
  "GitCloneFlag_verbose = [''--verbose'']"

definition GitCloneFlag_branch :: "string \<Rightarrow> string list" where
  "GitCloneFlag_branch name = [''--branch'', name]"

section \<open>The SSH operator and what a command method returns\<close>

text \<open>
  \<open>SSHOperator\<close> belongs to Airflow; the model keeps the keyword dictionary it is
  constructed with and nothing else. \<open>run\<close>, \<open>build\<close> and \<open>clone\<close> return the
  command string when \<open>return_command\<close> is true and the operator otherwise.
\<close>

datatype handle = SSHOperator kwargs

datatype result = Command string | Handle handle

text \<open>The dict display \<open>{"ssh_conn_id": c, "command": cmd, **kwargs}\<close>: a key of
  \<open>kwargs\<close> that is already present replaces the value in place, a new key is appended.\<close>

definition ssh_args :: "string \<Rightarrow> string \<Rightarrow> kwargs \<Rightarrow> kwargs" where
  "ssh_args conn command kw =
     foldl (\<lambda>d (k, v). AList.update k v d)
       [(''ssh_conn_id'', PStr conn), (''command'', PStr command)] kw"

section \<open>Docker (airops/docker.py)\<close>

record Docker =
  ssh_conn_id :: string
  username :: "string option"
  password :: "string option"

definition Docker_init :: "string \<Rightarrow> string option \<Rightarrow> string option \<Rightarrow> Docker" where
  "Docker_init conn user pw = \<lparr>ssh_conn_id = conn, username = user, password = pw\<rparr>"

text \<open>Truthiness of an optional string: \<open>None\<close> and the empty string are false.\<close>

definition truthy :: "string option \<Rightarrow> bool" where
  "truthy x = (case x of None \<Rightarrow> False | Some s \<Rightarrow> s \<noteq> [])"

definition Docker_login_command :: "Docker \<Rightarrow> string option" where
  "Docker_login_command self =
     (if truthy (username self) \<and> truthy (password self)
      then Some (join '' '' (map shlex_quote
              [''docker'', ''login'', ''-u'', the (username self), ''-p'', the (password self)]))
      else None)"

text \<open>\<open>self._ssh(command=command, **kwargs)\<close>: a \<open>command\<close> key among the caller's
  keyword arguments is a duplicate keyword and raises \<open>TypeError\<close> at the call.\<close>

definition Docker_ssh :: "Docker \<Rightarrow> string \<Rightarrow> kwargs \<Rightarrow> error + result" where
  "Docker_ssh self command kw =
     (if ''command'' \<in> set (map fst kw) then Inl TypeError
      else Inr (Handle (SSHOperator (ssh_args (ssh_conn_id self) command kw))))"

definition Docker_run ::
  "Docker \<Rightarrow> string list \<Rightarrow> string \<Rightarrow> string list option \<Rightarrow> bool \<Rightarrow> kwargs \<Rightarrow> error + result" where
  "Docker_run self docker_flags image_name app_args return_command kw =
     (let app_args = (case app_args of None \<Rightarrow> [] | Some xs \<Rightarrow> xs);
          args = [''docker'', ''run''] @ docker_flags @ [image_name] @ app_args;
          safe_args = map shlex_quote args;
          command = join '' '' safe_args;
          login_command = Docker_login_command self;
          command = (if truthy login_command then the login_command @ '' && '' @ command
                     else command)
      in if return_command then Inr (Command command) else Docker_ssh self command kw)"

definition Docker_build ::
  "Docker \<Rightarrow> string \<Rightarrow> string list \<Rightarrow> string \<Rightarrow> bool \<Rightarrow> kwargs \<Rightarrow> error + result" where
  "Docker_build self image_name docker_flags project_path return_command kw =
     (let args = [''docker'', ''build''] @ docker_flags @ [''-t'', image_name, project_path];
          safe_args = map shlex_quote args;
          command = join '' '' safe_args;
          login_command = Docker_login_command self;
          command = (if truthy login_command then the login_command @ '' && '' @ command
                     else command)
      in if return_command then Inr (Command command) else Docker_ssh self command kw)"

text \<open>What \<open>run\<close> and \<open>build\<close> put in front of the assembled command: the login
  command and \<open>&&\<close> when there is a login command, nothing otherwise.\<close>

definition login_prefix :: "Docker \<Rightarrow> string" where
  "login_prefix d = (case Docker_login_command d of None \<Rightarrow> [] | Some l \<Rightarrow> l @ '' && '')"

section \<open>Git (airops/vcs.py)\<close>

text \<open>
  \<open>Git.__init__\<close> stores nothing, so a Git object is modelled by its instance
  dictionary, which the constructor leaves empty; reading an attribute that is not
  there raises \<open>AttributeError\<close>.
\<close>

type_synonym Git = "(string \<times> pyval) list"

definition Git_init :: Git where
  "Git_init = []"

definition getattr :: "Git \<Rightarrow> string \<Rightarrow> error + pyval" where
  "getattr self name = (case map_of self name of None \<Rightarrow> Inl AttributeError | Some v \<Rightarrow> Inr v)"

definition Git_ssh :: "Git \<Rightarrow> string \<Rightarrow> kwargs \<Rightarrow> error + result" where
  "Git_ssh self command kw =
     (if ''command'' \<in> set (map fst kw) then Inl TypeError
      else case getattr self ''ssh_conn_id'' of
             Inl e \<Rightarrow> Inl e
           | Inr v \<Rightarrow> Inr (Handle (SSHOperator
                 (foldl (\<lambda>d (k, v). AList.update k v d)
                    [(''ssh_conn_id'', v), (''command'', PStr command)] kw))))"

text \<open>\<open>flags\<close> defaults to \<open>None\<close>, and \<open>*flags\<close> of \<open>None\<close> raises \<open>TypeError\<close>;
  the default directory \<open>"."\<close> is \<open>None\<close> of the \<open>directory\<close> argument here.\<close>

definition Git_clone ::
  "Git \<Rightarrow> string \<Rightarrow> string option \<Rightarrow> string list option \<Rightarrow> bool \<Rightarrow> kwargs \<Rightarrow> error + result" where
  "Git_clone self repository_url directory flags return_command kw =
     (let directory = (case directory of None \<Rightarrow> ''.'' | Some d \<Rightarrow> d)
      in case flags of
           None \<Rightarrow> Inl TypeError
         | Some fl \<Rightarrow>
             (let args = [''git'', ''clone''] @ fl @ [repository_url, directory];
                  safe_args = map shlex_quote args;
                  command = join '' '' safe_args
              in if return_command then Inr (Command command) else Git_ssh self command kw))"

section \<open>A POSIX shell reading the command\<close>

text \<open>
  The command string is handed to a remote POSIX shell. The part of the shell that the
  properties of quoting are about is token recognition and quote removal (POSIX Shell
  Command Language, 2.2 and 2.3): outside quotes a backslash keeps the next character,
  a single quote opens a span kept literally up to the next single quote, a double quote
  opens a span in which only the backslash before one of dollar, backquote, double quote,
  backslash and newline is removed, blanks end a word, and \<open>&&\<close> joins two commands.
  The reader answers \<open>None\<close> for every input that is more than a sequence of literal
  words joined by \<open>&&\<close>: an unquoted or double-quoted expansion (dollar, backquote),
  an unquoted pattern character, another operator, a comment, a tilde prefix or an open quote.
  Reserved words and variable assignments, which the shell grammar recognises only in
  the first position of a command, are not modelled: every command built here has
  \<open>docker\<close> or \<open>git\<close> there. Characters are bytes, and the reader treats each
  byte that has no meaning to the shell as an ordinary character.
\<close>

datatype token = Word string | AndIf

datatype quoting = Unquoted | InSingle | InDouble

definition is_blank :: "char \<Rightarrow> bool" where
  "is_blank c = (c = CHR '' '' \<or> c = CHR 0x09)"

definition is_operator_char :: "char \<Rightarrow> bool" where
  "is_operator_char c = (c \<in> set [CHR ''|'', CHR ''&'', CHR '';'', CHR ''<'', CHR ''>'',
                                    CHR ''('', CHR '')'', CHR 0x0A])"

definition is_expansion_char :: "char \<Rightarrow> bool" where
  "is_expansion_char c = (c \<in> set [CHR ''$'', CHR 0x60, CHR ''*'', CHR ''?'', CHR ''[''])"

definition word_of :: "string option \<Rightarrow> string" where
  "word_of cur = (case cur of None \<Rightarrow> [] | Some w \<Rightarrow> w)"

definition emit :: "string option \<Rightarrow> token list \<Rightarrow> token list" where
  "emit cur ts = (case cur of None \<Rightarrow> ts | Some w \<Rightarrow> Word w # ts)"

text \<open>\<open>sh_lex q cur s\<close>: the tokens of \<open>s\<close>, read in quoting state \<open>q\<close> with \<open>cur\<close>
  the word in progress (\<open>None\<close> between words).\<close>

fun sh_lex :: "quoting \<Rightarrow> string option \<Rightarrow> string \<Rightarrow> token list option" where
  "sh_lex Unquoted cur [] = Some (emit cur [])"
| "sh_lex Unquoted cur (c # cs) =
     (if c = CHR 0x27 then sh_lex InSingle (Some (word_of cur)) cs
      else if c = CHR 0x22 then sh_lex InDouble (Some (word_of cur)) cs
      else if c = CHR 0x5C then
        (case cs of
           [] \<Rightarrow> None
         | d # ds \<Rightarrow> if d = CHR 0x0A then sh_lex Unquoted cur ds
                     else sh_lex Unquoted (Some (word_of cur @ [d])) ds)
      else if is_blank c then map_option (emit cur) (sh_lex Unquoted None cs)
      else if c = CHR ''&'' then
        (case cs of
           [] \<Rightarrow> None
         | d # ds \<Rightarrow> if d = CHR ''&''
                     then map_option (\<lambda>ts. emit cur (AndIf # ts)) (sh_lex Unquoted None ds)
                     else None)
      else if is_operator_char c \<or> is_expansion_char c then None
      else if cur = None \<and> (c = CHR ''#'' \<or> c = CHR ''~'') then None
      else sh_lex Unquoted (Some (word_of cur @ [c])) cs)"
| "sh_lex InSingle cur [] = None"
| "sh_lex InSingle cur (c # cs) =
     (if c = CHR 0x27 then sh_lex Unquoted cur cs
      else sh_lex InSingle (Some (word_of cur @ [c])) cs)"
| "sh_lex InDouble cur [] = None"
| "sh_lex InDouble cur (c # cs) =
     (if c = CHR 0x22 then sh_lex Unquoted cur cs
      else if c = CHR 0x5C then
        (case cs of
           [] \<Rightarrow> None
         | d # ds \<Rightarrow> if d \<in> set [CHR ''$'', CHR 0x60, CHR 0x22, CHR 0x5C]
                     then sh_lex InDouble (Some (word_of cur @ [d])) ds
                     else if d = CHR 0x0A then sh_lex InDouble cur ds
                     else sh_lex InDouble (Some (word_of cur @ [c, d])) ds)
      else if c = CHR ''$'' \<or> c = CHR 0x60 then None
      else sh_lex InDouble (Some (word_of cur @ [c])) cs)"

text \<open>The words of each simple command of an \<open>&&\<close> list; a command with no word is a
  syntax error.\<close>

fun sh_group :: "string list \<Rightarrow> token list \<Rightarrow> string list list option" where
  "sh_group cur [] = (if cur = [] then None else Some [cur])"
| "sh_group cur (Word w # ts) = sh_group (cur @ [w]) ts"
| "sh_group cur (AndIf # ts) =
     (if cur = [] then None else map_option ((#) cur) (sh_group [] ts))"

definition sh_parse :: "string \<Rightarrow> string list list option" where
  "sh_parse s = (case sh_lex Unquoted None s of None \<Rightarrow> None | Some ts \<Rightarrow> sh_group [] ts)"

text \<open>The input read as exactly one word.\<close>

definition sh_word :: "string \<Rightarrow> string option" where
  "sh_word s = (case sh_lex Unquoted None s of Some [Word w] \<Rightarrow> Some w | _ \<Rightarrow> None)"

section \<open>Quoting and the shell reader\<close>

lemmas quote_eval = shlex_quote_def find_unsafe_def is_safe_char_def is_word_char_def

lemma safe_not_special:
  assumes "is_safe_char c"
  shows "c \<noteq> CHR 0x27" "c \<noteq> CHR 0x22" "c \<noteq> CHR 0x5C" "\<not> is_blank c" "c \<noteq> CHR ''&''"
    "\<not> is_operator_char c" "\<not> is_expansion_char c" "c \<noteq> CHR ''#''" "c \<noteq> CHR ''~''"
  using assms
  by (auto simp: is_safe_char_def is_word_char_def is_blank_def is_operator_char_def is_expansion_char_def)

lemma lex_safe_char:
  assumes "is_safe_char c"
  shows "sh_lex Unquoted cur (c # cs) = sh_lex Unquoted (Some (word_of cur @ [c])) cs"
  using safe_not_special [OF assms] by simp

lemma lex_safe:
  "\<forall>c \<in> set s. is_safe_char c \<Longrightarrow>
   sh_lex Unquoted (Some w) (s @ rest) = sh_lex Unquoted (Some (w @ s)) rest"
proof (induction s arbitrary: w)
  case Nil then show ?case by simp
next
  case (Cons c s)
  have "sh_lex Unquoted (Some w) (c # s @ rest) = sh_lex Unquoted (Some (w @ [c])) (s @ rest)"
    using Cons.prems by (simp add: lex_safe_char word_of_def del: sh_lex.simps)
  also have "\<dots> = sh_lex Unquoted (Some ((w @ [c]) @ s)) rest"
    using Cons.prems by (intro Cons.IH) simp
  finally show ?case by simp
qed

lemma lex_safe_start:
  assumes "\<forall>c \<in> set s. is_safe_char c" and "s \<noteq> []"
  shows "sh_lex Unquoted None (s @ rest) = sh_lex Unquoted (Some s) rest"
proof -
  obtain c s' where s: "s = c # s'" using assms(2) by (cases s) auto
  have "sh_lex Unquoted None (c # s' @ rest) = sh_lex Unquoted (Some [c]) (s' @ rest)"
    using assms(1) s by (simp add: lex_safe_char word_of_def del: sh_lex.simps)
  also have "\<dots> = sh_lex Unquoted (Some ([c] @ s')) rest"
    using assms(1) s by (intro lex_safe) simp
  finally show ?thesis using s by simp
qed

lemma replace_squote_Nil: "replace_squote [] = []"
  by (simp add: replace_squote_def)

lemma replace_squote_Cons:
  "replace_squote (c # s) =
     (if c = CHR 0x27 then [CHR 0x27, CHR 0x22, CHR 0x27, CHR 0x22, CHR 0x27] else [c]) @ replace_squote s"
  by (simp add: replace_squote_def)

lemma lex_single:
  "sh_lex InSingle (Some w) (replace_squote s @ CHR 0x27 # rest) = sh_lex Unquoted (Some (w @ s)) rest"
proof (induction s arbitrary: w)
  case Nil then show ?case by (simp add: replace_squote_Nil)
next
  case (Cons c s)
  have ih: "sh_lex InSingle (Some (w @ [c])) (replace_squote s @ CHR 0x27 # rest)
            = sh_lex Unquoted (Some (w @ c # s)) rest"
    using Cons.IH [of "w @ [c]"] by simp
  show ?case
  proof (cases "c = CHR 0x27")
    case True
    show ?thesis using ih unfolding True by (simp add: replace_squote_Cons word_of_def)
  next
    case False
    then show ?thesis using ih by (simp add: replace_squote_Cons word_of_def)
  qed
qed

lemma find_unsafe_None: "find_unsafe s = None \<longleftrightarrow> (\<forall>c \<in> set s. is_safe_char c)"
  by (auto simp: find_unsafe_def find_None_iff)

lemma shlex_quote_empty: "shlex_quote [] = [CHR 0x27, CHR 0x27]"
  by (simp add: shlex_quote_def)

lemma shlex_quote_safe: "s \<noteq> [] \<Longrightarrow> \<forall>c \<in> set s. is_safe_char c \<Longrightarrow> shlex_quote s = s"
  by (simp add: shlex_quote_def find_unsafe_None)

lemma shlex_quote_unsafe:
  "\<not> (\<forall>c \<in> set s. is_safe_char c) \<Longrightarrow> shlex_quote s = CHR 0x27 # replace_squote s @ [CHR 0x27]"
  by (auto simp: shlex_quote_def find_unsafe_None)

lemma lex_quote:
  "sh_lex Unquoted None (shlex_quote s @ rest) = sh_lex Unquoted (Some s) rest"
proof (cases "s = []")
  case True
  then show ?thesis by (simp add: shlex_quote_empty word_of_def)
next
  case ne: False
  show ?thesis
  proof (cases "\<forall>c \<in> set s. is_safe_char c")
    case True
    then show ?thesis using ne by (simp add: shlex_quote_safe lex_safe_start)
  next
    case False
    have "sh_lex Unquoted None (CHR 0x27 # replace_squote s @ CHR 0x27 # rest) = sh_lex Unquoted (Some s) rest"
      using lex_single [of "[]" s rest] by (simp add: word_of_def)
    then show ?thesis using False by (simp add: shlex_quote_unsafe)
  qed
qed


lemma lex_word_end: "sh_lex Unquoted (Some w) [] = Some [Word w]"
  by (simp add: emit_def)

lemma lex_word_blank:
  "sh_lex Unquoted (Some w) (CHR '' '' # rest) = map_option ((#) (Word w)) (sh_lex Unquoted None rest)"
proof -
  have "emit (Some w) = (#) (Word w)" by (rule ext) (simp add: emit_def)
  then show ?thesis by (simp add: is_blank_def)
qed

lemma lex_blank_start:
  "sh_lex Unquoted None (CHR '' '' # rest) = sh_lex Unquoted None rest"
proof -
  have "emit None = (\<lambda>ts. ts)" by (rule ext) (simp add: emit_def)
  then show ?thesis by (simp add: is_blank_def option.map_ident)
qed

lemma lex_and_if:
  "sh_lex Unquoted None (CHR ''&'' # CHR ''&'' # rest) = map_option ((#) AndIf) (sh_lex Unquoted None rest)"
proof -
  have "(\<lambda>ts. emit None (AndIf # ts)) = (#) AndIf" by (rule ext) (simp add: emit_def)
  then show ?thesis by (simp add: is_blank_def)
qed

lemma lex_join:
  "ts \<noteq> [] \<Longrightarrow>
   sh_lex Unquoted None (join '' '' (map shlex_quote ts) @ rest) =
     map_option ((@) (map Word (butlast ts))) (sh_lex Unquoted (Some (last ts)) rest)"
proof (induction ts)
  case Nil then show ?case by simp
next
  case (Cons t ts)
  show ?case
  proof (cases ts)
    case Nil
    then show ?thesis by (simp add: lex_quote option.map_ident del: sh_lex.simps)
  next
    case (Cons u us)
    have "sh_lex Unquoted None (join '' '' (map shlex_quote (t # ts)) @ rest)
        = sh_lex Unquoted None (shlex_quote t @ CHR '' '' # (join '' '' (map shlex_quote ts) @ rest))"
      by (simp add: Cons)
    also have "\<dots> = map_option ((#) (Word t)) (sh_lex Unquoted None (join '' '' (map shlex_quote ts) @ rest))"
      by (simp only: lex_quote lex_word_blank)
    also have "\<dots> = map_option ((#) (Word t))
         (map_option ((@) (map Word (butlast ts))) (sh_lex Unquoted (Some (last ts)) rest))"
      using Cons.IH Cons by simp
    finally show ?thesis using Cons by (simp add: option.map_comp comp_def del: sh_lex.simps)
  qed
qed

lemma lex_join_end:
  "ts \<noteq> [] \<Longrightarrow> sh_lex Unquoted None (join '' '' (map shlex_quote ts)) = Some (map Word ts)"
proof -
  assume ne: "ts \<noteq> []"
  then have "map Word (butlast ts) @ [Word (last ts)] = map Word ts"
    by (metis append_butlast_last_id list.simps(8) list.simps(9) map_append)
  then show ?thesis using lex_join [OF ne, of "[]"] by (simp add: lex_word_end del: sh_lex.simps)
qed

lemma lex_join_and:
  assumes ne: "ts \<noteq> []"
  shows "sh_lex Unquoted None (join '' '' (map shlex_quote ts) @ '' && '' @ rest) =
     map_option (\<lambda>r. map Word ts @ AndIf # r) (sh_lex Unquoted None rest)"
proof -
  have w: "map Word (butlast ts) @ [Word (last ts)] = map Word ts"
    using ne by (metis append_butlast_last_id list.simps(8) list.simps(9) map_append)
  have "sh_lex Unquoted (Some (last ts)) ('' && '' @ rest)
      = map_option (\<lambda>r. Word (last ts) # AndIf # r) (sh_lex Unquoted None rest)"
    by (simp add: lex_word_blank lex_and_if lex_blank_start option.map_comp comp_def del: sh_lex.simps)
  then have "sh_lex Unquoted None (join '' '' (map shlex_quote ts) @ '' && '' @ rest)
      = map_option (\<lambda>r. map Word (butlast ts) @ Word (last ts) # AndIf # r) (sh_lex Unquoted None rest)"
    using lex_join [OF ne, of "'' && '' @ rest"] by (simp add: option.map_comp comp_def del: sh_lex.simps)
  moreover have "\<And>r. map Word (butlast ts) @ Word (last ts) # AndIf # r = map Word ts @ AndIf # r"
    using w by (metis append.assoc append_Cons append_Nil)
  ultimately show ?thesis by simp
qed

lemma group_words: "sh_group cur (map Word ts @ rest) = sh_group (cur @ ts) rest"
  by (induction ts arbitrary: cur) simp_all

lemma parse_one:
  assumes "ts \<noteq> []"
  shows "sh_parse (join '' '' (map shlex_quote ts)) = Some [ts]"
  using group_words [of "[]" ts "[]"] assms by (simp add: sh_parse_def lex_join_end)

lemma parse_two:
  assumes "ts \<noteq> []" and "us \<noteq> []"
  shows "sh_parse (join '' '' (map shlex_quote ts) @ '' && '' @ join '' '' (map shlex_quote us))
         = Some [ts, us]"
proof -
  have "sh_lex Unquoted None (join '' '' (map shlex_quote ts) @ '' && '' @ join '' '' (map shlex_quote us))
        = Some (map Word ts @ AndIf # map Word us)"
    using lex_join_and [OF assms(1), of "join '' '' (map shlex_quote us)"]
    by (simp add: lex_join_end [OF assms(2)])
  moreover have "sh_group [] (map Word ts @ AndIf # map Word us) = Some [ts, us]"
    using group_words [of "[]" ts "AndIf # map Word us"] group_words [of "[]" us "[]"] assms
    by simp
  ultimately show ?thesis by (simp add: sh_parse_def)
qed

text \<open>
  C1. Quoting is a total function, and a POSIX shell reading the quoted token as one word
  gets back exactly the original string, whatever characters it holds (dollar, backquote,
  double quote, single quote, space, semicolon, pipe and every other one); the empty
  string quotes to two single quotes.
\<close>

theorem shlex_quote_roundtrip:
  "sh_word (shlex_quote s) = Some s \<and> shlex_quote [] = [CHR 0x27, CHR 0x27]"
  using lex_quote [of s "[]"] by (simp add: sh_word_def emit_def shlex_quote_empty)

theorem shlex_quote_roundtrip_witness:
  "sh_word (shlex_quote (''a $b `c` '' @ [CHR 0x22, CHR 0x27] @ '';|'')) =
     Some (''a $b `c` '' @ [CHR 0x22, CHR 0x27] @ '';|'')"
  using shlex_quote_roundtrip [of "''a $b `c` '' @ [CHR 0x22, CHR 0x27] @ '';|''"] by simp

section \<open>Flag builders over a map\<close>

lemma foldl_items:
  "foldl (\<lambda>arg (k, v). arg @ [flag, g k v]) acc m = acc @ concat (map (\<lambda>(k, v). [flag, g k v]) m)"
  by (induction m arbitrary: acc) auto

lemma length_items: "length (concat (map (\<lambda>(k, v). [flag, g k v]) m)) = 2 * length m"
  by (induction m) auto

lemma nth_items:
  "i < length m \<Longrightarrow>
   concat (map (\<lambda>(k, v). [flag, g k v]) m) ! (2 * i) = flag \<and>
   concat (map (\<lambda>(k, v). [flag, g k v]) m) ! (2 * i + 1) = g (fst (m ! i)) (snd (m ! i))"
proof (induction m arbitrary: i)
  case Nil then show ?case by simp
next
  case (Cons e m)
  show ?case
  proof (cases i)
    case 0 then show ?thesis by (cases e) simp
  next
    case (Suc j)
    then have "j < length m" using Cons.prems by simp
    from Cons.IH [OF this] show ?thesis by (cases e) (simp add: Suc)
  qed
qed

lemma env_items:
  "DockerRunFlag_env m = concat (map (\<lambda>(k, v). [''-e'', k @ ''='' @ v]) m)"
  unfolding DockerRunFlag_env_def
  using foldl_items [where flag = "''-e''" and g = "\<lambda>k v. k @ ''='' @ v" and acc = "[]" and m = m]
  by simp

lemma publish_items:
  "DockerRunFlag_publish m = concat (map (\<lambda>(k, v). [''-p'', k @ '':'' @ v]) m)"
  unfolding DockerRunFlag_publish_def
  using foldl_items [where flag = "''-p''" and g = "\<lambda>k v. k @ '':'' @ v" and acc = "[]" and m = m]
  by simp

lemma volume_items:
  "DockerRunFlag_volume m = concat (map (\<lambda>(k, v). [''-v'', k @ '':'' @ v]) m)"
  unfolding DockerRunFlag_volume_def
  using foldl_items [where flag = "''-v''" and g = "\<lambda>k v. k @ '':'' @ v" and acc = "[]" and m = m]
  by simp

lemma build_arg_items:
  "DockerBuildFlag_build_arg m = concat (map (\<lambda>(k, v). [''--build-arg'', k @ ''='' @ v]) m)"
  unfolding DockerBuildFlag_build_arg_def
  using foldl_items [where flag = "''--build-arg''" and g = "\<lambda>k v. k @ ''='' @ v" and acc = "[]" and m = m]
  by simp

text \<open>
  C4. For every map \<open>m\<close> given to \<open>env\<close>, \<open>build_arg\<close>, \<open>publish\<close> or
  \<open>volume\<close>, the returned list has exactly twice as many tokens as \<open>m\<close> has
  entries, and its tokens at \<open>2 i\<close> and \<open>2 i + 1\<close> are the flag and the rendered value
  of the \<open>i\<close>-th entry of \<open>m\<close> in iteration order.
\<close>

theorem map_builders_pairs:
  "(length (DockerRunFlag_env m) = 2 * length m \<and>
    (\<forall>i < length m. DockerRunFlag_env m ! (2 * i) = ''-e'' \<and>
       DockerRunFlag_env m ! (2 * i + 1) = fst (m ! i) @ ''='' @ snd (m ! i))) \<and>
   (length (DockerBuildFlag_build_arg m) = 2 * length m \<and>
    (\<forall>i < length m. DockerBuildFlag_build_arg m ! (2 * i) = ''--build-arg'' \<and>
       DockerBuildFlag_build_arg m ! (2 * i + 1) = fst (m ! i) @ ''='' @ snd (m ! i))) \<and>
   (length (DockerRunFlag_publish m) = 2 * length m \<and>
    (\<forall>i < length m. DockerRunFlag_publish m ! (2 * i) = ''-p'' \<and>
       DockerRunFlag_publish m ! (2 * i + 1) = fst (m ! i) @ '':'' @ snd (m ! i))) \<and>
   (length (DockerRunFlag_volume m) = 2 * length m \<and>
    (\<forall>i < length m. DockerRunFlag_volume m ! (2 * i) = ''-v'' \<and>
       DockerRunFlag_volume m ! (2 * i + 1) = fst (m ! i) @ '':'' @ snd (m ! i)))"
proof (intro conjI allI impI)
  show "length (DockerRunFlag_env m) = 2 * length m"
    unfolding env_items by (rule length_items)
  show "length (DockerBuildFlag_build_arg m) = 2 * length m"
    unfolding build_arg_items by (rule length_items)
  show "length (DockerRunFlag_publish m) = 2 * length m"
    unfolding publish_items by (rule length_items)
  show "length (DockerRunFlag_volume m) = 2 * length m"
    unfolding volume_items by (rule length_items)
next
  fix i assume i: "i < length m"
  show "DockerRunFlag_env m ! (2 * i) = ''-e''"
    and "DockerRunFlag_env m ! (2 * i + 1) = fst (m ! i) @ ''='' @ snd (m ! i)"
    unfolding env_items
    using nth_items [OF i, where flag = "''-e''" and g = "\<lambda>k v. k @ ''='' @ v"] by simp_all
  show "DockerBuildFlag_build_arg m ! (2 * i) = ''--build-arg''"
    and "DockerBuildFlag_build_arg m ! (2 * i + 1) = fst (m ! i) @ ''='' @ snd (m ! i)"
    unfolding build_arg_items
    using nth_items [OF i, where flag = "''--build-arg''" and g = "\<lambda>k v. k @ ''='' @ v"]
    by simp_all
  show "DockerRunFlag_publish m ! (2 * i) = ''-p''"
    and "DockerRunFlag_publish m ! (2 * i + 1) = fst (m ! i) @ '':'' @ snd (m ! i)"
    unfolding publish_items
    using nth_items [OF i, where flag = "''-p''" and g = "\<lambda>k v. k @ '':'' @ v"] by simp_all
  show "DockerRunFlag_volume m ! (2 * i) = ''-v''"
    and "DockerRunFlag_volume m ! (2 * i + 1) = fst (m ! i) @ '':'' @ snd (m ! i)"
    unfolding volume_items
    using nth_items [OF i, where flag = "''-v''" and g = "\<lambda>k v. k @ '':'' @ v"] by simp_all
qed

theorem map_builders_pairs_witness:
  "length (DockerRunFlag_env [(''A'', ''1''), (''B'', ''2'')]) = 4 \<and>
   DockerRunFlag_env [(''A'', ''1''), (''B'', ''2'')] ! 2 = ''-e'' \<and>
   DockerRunFlag_env [(''A'', ''1''), (''B'', ''2'')] ! 3 = ''B=2''"
proof -
  let ?m = "[(''A'', ''1''), (''B'', ''2'')]"
  have lt: "(1::nat) < length ?m" by simp
  have "\<forall>i < length ?m. DockerRunFlag_env ?m ! (2 * i) = ''-e'' \<and>
          DockerRunFlag_env ?m ! (2 * i + 1) = fst (?m ! i) @ ''='' @ snd (?m ! i)"
    using map_builders_pairs [of ?m] by blast
  with lt have "DockerRunFlag_env ?m ! (2 * 1) = ''-e'' \<and>
          DockerRunFlag_env ?m ! (2 * 1 + 1) = fst (?m ! 1) @ ''='' @ snd (?m ! 1)"
    by blast
  moreover have "length (DockerRunFlag_env ?m) = 2 * length ?m"
    using map_builders_pairs [of ?m] by blast
  ultimately show ?thesis by simp
qed

section \<open>The assembled commands\<close>

lemma quote_docker: "shlex_quote ''docker'' = ''docker''"
  by (simp add: quote_eval)

lemma quote_login: "shlex_quote ''login'' = ''login''"
  by (simp add: quote_eval)

lemma quote_run: "shlex_quote ''run'' = ''run''"
  by (simp add: quote_eval)

lemma quote_build: "shlex_quote ''build'' = ''build''"
  by (simp add: quote_eval)

lemma quote_u: "shlex_quote ''-u'' = ''-u''"
  by (simp add: quote_eval)

lemma quote_p: "shlex_quote ''-p'' = ''-p''"
  by (simp add: quote_eval)

lemma login_command_truthy:
  "truthy (Docker_login_command d) = (truthy (username d) \<and> truthy (password d))"
  by (simp add: Docker_login_command_def truthy_def quote_docker)

lemma login_prefix_cases:
  "login_prefix d =
     (if truthy (username d) \<and> truthy (password d)
      then join '' '' (map shlex_quote
             [''docker'', ''login'', ''-u'', the (username d), ''-p'', the (password d)]) @ '' && ''
      else [])"
  by (simp add: login_prefix_def Docker_login_command_def del: join.simps list.map)

lemma run_unfold:
  "Docker_run d flags img app rc kw =
     (if rc then Inr (Command (login_prefix d @ join '' '' (map shlex_quote
              ([''docker'', ''run''] @ flags @ [img] @ (case app of None \<Rightarrow> [] | Some xs \<Rightarrow> xs)))))
      else Docker_ssh d (login_prefix d @ join '' '' (map shlex_quote
              ([''docker'', ''run''] @ flags @ [img] @ (case app of None \<Rightarrow> [] | Some xs \<Rightarrow> xs)))) kw)"
  unfolding Docker_run_def Let_def login_command_truthy login_prefix_cases
  by (simp add: Docker_login_command_def del: join.simps map_append list.map)

lemma build_unfold:
  "Docker_build d img flags path rc kw =
     (if rc then Inr (Command (login_prefix d @ join '' '' (map shlex_quote
              ([''docker'', ''build''] @ flags @ [''-t'', img, path]))))
      else Docker_ssh d (login_prefix d @ join '' '' (map shlex_quote
              ([''docker'', ''build''] @ flags @ [''-t'', img, path]))) kw)"
  unfolding Docker_build_def Let_def login_command_truthy login_prefix_cases
  by (simp add: Docker_login_command_def del: join.simps map_append list.map)

lemma clone_unfold:
  "Git_clone g url dir (Some fl) rc kw =
     (if rc then Inr (Command (join '' '' (map shlex_quote
              ([''git'', ''clone''] @ fl @ [url, case dir of None \<Rightarrow> ''.'' | Some x \<Rightarrow> x]))))
      else Git_ssh g (join '' '' (map shlex_quote
              ([''git'', ''clone''] @ fl @ [url, case dir of None \<Rightarrow> ''.'' | Some x \<Rightarrow> x]))) kw)"
  unfolding Git_clone_def Let_def
  by (simp del: join.simps map_append list.map)

lemma parse_with_login:
  assumes "ts \<noteq> []"
  shows "sh_parse (login_prefix d @ join '' '' (map shlex_quote ts)) =
     Some ((if truthy (username d) \<and> truthy (password d)
            then [[''docker'', ''login'', ''-u'', the (username d), ''-p'', the (password d)]]
            else []) @ [ts])"
proof (cases "truthy (username d) \<and> truthy (password d)")
  case True
  have "sh_parse (join '' '' (map shlex_quote
            [''docker'', ''login'', ''-u'', the (username d), ''-p'', the (password d)])
          @ '' && '' @ join '' '' (map shlex_quote ts))
        = Some [[''docker'', ''login'', ''-u'', the (username d), ''-p'', the (password d)], ts]"
    by (rule parse_two) (simp_all add: assms)
  then show ?thesis using True
    by (simp add: login_prefix_cases del: join.simps list.map)
next
  case False
  have "login_prefix d = []"
    unfolding login_prefix_cases by (rule if_not_P) (rule False)
  moreover have "(if truthy (username d) \<and> truthy (password d)
            then [[''docker'', ''login'', ''-u'', the (username d), ''-p'', the (password d)]]
            else []) = []"
    by (rule if_not_P) (rule False)
  ultimately show ?thesis using parse_one [OF assms] by simp
qed

lemma join_Cons_ex: "\<exists>r. join sep (y # ys) = y @ r"
  by (cases ys) auto

lemma no_login_prefix_run:
  "\<not> prefix ''docker login'' (join '' '' (map shlex_quote ([''docker'', ''run''] @ rest)))"
proof -
  obtain r where "join '' '' (map shlex_quote (''run'' # rest)) = ''run'' @ r"
    using join_Cons_ex [of "'' ''" "shlex_quote ''run''" "map shlex_quote rest"]
    by (auto simp: quote_run)
  then have "join '' '' (map shlex_quote ([''docker'', ''run''] @ rest)) = ''docker run'' @ r"
    by (simp add: quote_docker)
  then show ?thesis by simp
qed

lemma no_login_prefix_build:
  "\<not> prefix ''docker login'' (join '' '' (map shlex_quote ([''docker'', ''build''] @ rest)))"
proof -
  obtain r where "join '' '' (map shlex_quote (''build'' # rest)) = ''build'' @ r"
    using join_Cons_ex [of "'' ''" "shlex_quote ''build''" "map shlex_quote rest"]
    by (auto simp: quote_build)
  then have "join '' '' (map shlex_quote ([''docker'', ''build''] @ rest)) = ''docker build'' @ r"
    by (simp add: quote_docker)
  then show ?thesis by simp
qed

lemma login_prefix_empty:
  assumes "username d = None \<or> username d = Some [] \<or> password d = None \<or> password d = Some []"
  shows "Docker_login_command d = None" and "login_prefix d = []"
proof -
  show "Docker_login_command d = None"
    using assms by (auto simp: Docker_login_command_def truthy_def)
  then show "login_prefix d = []" by (simp add: login_prefix_def)
qed

lemma login_prefix_full:
  assumes "username d = Some u" "password d = Some p" "u \<noteq> []" "p \<noteq> []"
  shows "login_prefix d = ''docker login -u '' @ shlex_quote u @ '' -p '' @ shlex_quote p @ '' && ''"
  using assms
  by (simp add: login_prefix_cases truthy_def quote_docker quote_login quote_u quote_p)

text \<open>
  C2. In every call of \<open>Docker.run\<close>, \<open>Docker.build\<close> and \<open>Git.clone\<close> the command
  string, both the one returned and the one given to the SSH operator, is the
  space-separated list of the tokens each passed through \<open>shlex.quote\<close> once (after the
  quoted login tokens and \<open>&&\<close> where there is a login command), so that a shell
  reading it gets back exactly the raw tokens, user-supplied ones included; a map entry
  is one token \<open>key=value\<close> (or \<open>key:value\<close>) before it is quoted.
\<close>

theorem every_token_escaped_once:
  "(Docker_run d flags img app rc kw =
      (let c = (case Docker_login_command d of None \<Rightarrow> [] | Some l \<Rightarrow> l @ '' && '') @
               join '' '' (map shlex_quote
                 ([''docker'', ''run''] @ flags @ [img] @ (case app of None \<Rightarrow> [] | Some xs \<Rightarrow> xs)))
       in if rc then Inr (Command c) else Docker_ssh d c kw) \<and>
    sh_parse ((case Docker_login_command d of None \<Rightarrow> [] | Some l \<Rightarrow> l @ '' && '') @
               join '' '' (map shlex_quote
                 ([''docker'', ''run''] @ flags @ [img] @ (case app of None \<Rightarrow> [] | Some xs \<Rightarrow> xs))))
      = Some ((if truthy (username d) \<and> truthy (password d)
               then [[''docker'', ''login'', ''-u'', the (username d), ''-p'', the (password d)]]
               else []) @
              [[''docker'', ''run''] @ flags @ [img] @ (case app of None \<Rightarrow> [] | Some xs \<Rightarrow> xs)])) \<and>
   (Docker_build d img flags path rc kw =
      (let c = (case Docker_login_command d of None \<Rightarrow> [] | Some l \<Rightarrow> l @ '' && '') @
               join '' '' (map shlex_quote ([''docker'', ''build''] @ flags @ [''-t'', img, path]))
       in if rc then Inr (Command c) else Docker_ssh d c kw) \<and>
    sh_parse ((case Docker_login_command d of None \<Rightarrow> [] | Some l \<Rightarrow> l @ '' && '') @
               join '' '' (map shlex_quote ([''docker'', ''build''] @ flags @ [''-t'', img, path])))
      = Some ((if truthy (username d) \<and> truthy (password d)
               then [[''docker'', ''login'', ''-u'', the (username d), ''-p'', the (password d)]]
               else []) @
              [[''docker'', ''build''] @ flags @ [''-t'', img, path]])) \<and>
   (Git_clone g url dir (Some flags) rc kw =
      (let c = join '' '' (map shlex_quote
                 ([''git'', ''clone''] @ flags @ [url, case dir of None \<Rightarrow> ''.'' | Some x \<Rightarrow> x]))
       in if rc then Inr (Command c) else Git_ssh g c kw) \<and>
    sh_parse (join '' '' (map shlex_quote
                 ([''git'', ''clone''] @ flags @ [url, case dir of None \<Rightarrow> ''.'' | Some x \<Rightarrow> x])))
      = Some [[''git'', ''clone''] @ flags @ [url, case dir of None \<Rightarrow> ''.'' | Some x \<Rightarrow> x]]) \<and>
   DockerRunFlag_env [(k, v)] = [''-e'', k @ ''='' @ v] \<and>
   DockerBuildFlag_build_arg [(k, v)] = [''--build-arg'', k @ ''='' @ v] \<and>
   DockerRunFlag_publish [(k, v)] = [''-p'', k @ '':'' @ v] \<and>
   DockerRunFlag_volume [(k, v)] = [''-v'', k @ '':'' @ v]"
proof (intro conjI)
  show "Docker_run d flags img app rc kw =
      (let c = (case Docker_login_command d of None \<Rightarrow> [] | Some l \<Rightarrow> l @ '' && '') @
               join '' '' (map shlex_quote
                 ([''docker'', ''run''] @ flags @ [img] @ (case app of None \<Rightarrow> [] | Some xs \<Rightarrow> xs)))
       in if rc then Inr (Command c) else Docker_ssh d c kw)"
    unfolding Let_def login_prefix_def [symmetric] by (rule run_unfold)
  show "Docker_build d img flags path rc kw =
      (let c = (case Docker_login_command d of None \<Rightarrow> [] | Some l \<Rightarrow> l @ '' && '') @
               join '' '' (map shlex_quote ([''docker'', ''build''] @ flags @ [''-t'', img, path]))
       in if rc then Inr (Command c) else Docker_ssh d c kw)"
    unfolding Let_def login_prefix_def [symmetric] by (rule build_unfold)
  show "Git_clone g url dir (Some flags) rc kw =
      (let c = join '' '' (map shlex_quote
                 ([''git'', ''clone''] @ flags @ [url, case dir of None \<Rightarrow> ''.'' | Some x \<Rightarrow> x]))
       in if rc then Inr (Command c) else Git_ssh g c kw)"
    unfolding Let_def by (rule clone_unfold)
  show "sh_parse ((case Docker_login_command d of None \<Rightarrow> [] | Some l \<Rightarrow> l @ '' && '') @
               join '' '' (map shlex_quote
                 ([''docker'', ''run''] @ flags @ [img] @ (case app of None \<Rightarrow> [] | Some xs \<Rightarrow> xs))))
      = Some ((if truthy (username d) \<and> truthy (password d)
               then [[''docker'', ''login'', ''-u'', the (username d), ''-p'', the (password d)]]
               else []) @
              [[''docker'', ''run''] @ flags @ [img] @ (case app of None \<Rightarrow> [] | Some xs \<Rightarrow> xs)])"
    unfolding login_prefix_def [symmetric] by (rule parse_with_login) simp
  show "sh_parse ((case Docker_login_command d of None \<Rightarrow> [] | Some l \<Rightarrow> l @ '' && '') @
               join '' '' (map shlex_quote ([''docker'', ''build''] @ flags @ [''-t'', img, path])))
      = Some ((if truthy (username d) \<and> truthy (password d)
               then [[''docker'', ''login'', ''-u'', the (username d), ''-p'', the (password d)]]
               else []) @
              [[''docker'', ''build''] @ flags @ [''-t'', img, path]])"
    unfolding login_prefix_def [symmetric] by (rule parse_with_login) simp
  show "sh_parse (join '' '' (map shlex_quote
                 ([''git'', ''clone''] @ flags @ [url, case dir of None \<Rightarrow> ''.'' | Some x \<Rightarrow> x])))
      = Some [[''git'', ''clone''] @ flags @ [url, case dir of None \<Rightarrow> ''.'' | Some x \<Rightarrow> x]]"
    by (rule parse_one) simp
  show "DockerRunFlag_env [(k, v)] = [''-e'', k @ ''='' @ v]"
    by (simp add: DockerRunFlag_env_def)
  show "DockerBuildFlag_build_arg [(k, v)] = [''--build-arg'', k @ ''='' @ v]"
    by (simp add: DockerBuildFlag_build_arg_def)
  show "DockerRunFlag_publish [(k, v)] = [''-p'', k @ '':'' @ v]"
    by (simp add: DockerRunFlag_publish_def)
  show "DockerRunFlag_volume [(k, v)] = [''-v'', k @ '':'' @ v]"
    by (simp add: DockerRunFlag_volume_def)
qed


theorem every_token_escaped_once_witness:
  "Docker_run (Docker_init ''c'' (Some ''u'') (Some ''p w''))
       (DockerRunFlag_env [(''K'', ''a b'')]) ''img'' None True []
     = Inr (Command (''docker login -u u -p '' @ [CHR 0x27] @ ''p w'' @ [CHR 0x27] @
                     '' && docker run -e '' @ [CHR 0x27] @ ''K=a b'' @ [CHR 0x27] @ '' img'')) \<and>
   sh_parse (''docker login -u u -p '' @ [CHR 0x27] @ ''p w'' @ [CHR 0x27] @
                     '' && docker run -e '' @ [CHR 0x27] @ ''K=a b'' @ [CHR 0x27] @ '' img'')
     = Some [[''docker'', ''login'', ''-u'', ''u'', ''-p'', ''p w''],
             [''docker'', ''run'', ''-e'', ''K=a b'', ''img'']]"
  using every_token_escaped_once [of "Docker_init ''c'' (Some ''u'') (Some ''p w'')"
      "DockerRunFlag_env [(''K'', ''a b'')]" "''img''" None True "[]"]
  by (simp add: Docker_init_def Docker_login_command_def truthy_def quote_eval
      DockerRunFlag_env_def replace_squote_def)

section \<open>The login command\<close>

text \<open>
  C3. The claim reads: whenever username and password are both set, \<open>run\<close> and
  \<open>build\<close> with \<open>return_command=True\<close> return the login command, then \<open>&&\<close>,
  then the assembled command. The guard of \<open>_login_command\<close> is the truth value of the
  two strings, so the statement holds when both are set to non-empty strings: the result
  is then \<open>docker login -u <user> -p <password>\<close> with user and password quoted (the
  four fixed tokens are unchanged by quoting), \<open> && \<close>, and the assembled command.
\<close>

theorem login_prefix_nonempty_credentials:
  assumes "username d = Some u" and "password d = Some p" and "u \<noteq> []" and "p \<noteq> []"
  shows "Docker_run d flags img app True kw =
           Inr (Command (''docker login -u '' @ shlex_quote u @ '' -p '' @ shlex_quote p @ '' && '' @
                  join '' '' (map shlex_quote
                    ([''docker'', ''run''] @ flags @ [img] @ (case app of None \<Rightarrow> [] | Some xs \<Rightarrow> xs))))) \<and>
         Docker_build d img flags path True kw =
           Inr (Command (''docker login -u '' @ shlex_quote u @ '' -p '' @ shlex_quote p @ '' && '' @
                  join '' '' (map shlex_quote ([''docker'', ''build''] @ flags @ [''-t'', img, path]))))"
  unfolding run_unfold build_unfold login_prefix_full [OF assms]
  by simp

theorem login_prefix_nonempty_credentials_witness:
  "Docker_run (Docker_init ''c'' (Some ''myuser'') (Some ''my pass''))
       (DockerRunFlag_temp_container) ''img'' None True []
     = Inr (Command (''docker login -u myuser -p '' @ [CHR 0x27] @ ''my pass'' @ [CHR 0x27] @
                     '' && docker run --rm img''))"
proof -
  let ?d = "Docker_init ''c'' (Some ''myuser'') (Some ''my pass'')"
  have u: "username ?d = Some ''myuser''" and p: "password ?d = Some ''my pass''"
    by (simp_all add: Docker_init_def)
  have ne: "''myuser'' \<noteq> []" "''my pass'' \<noteq> []" by simp_all
  from login_prefix_nonempty_credentials [OF u p ne, of DockerRunFlag_temp_container "''img''" None "[]"]
  show ?thesis
    by (simp add: quote_eval DockerRunFlag_temp_container_def replace_squote_def)
qed

text \<open>With the username set to the empty string and a password set, no login command is
  put in front.\<close>

theorem login_prefix_empty_username_counterexample:
  "username (Docker_init ''conn'' (Some []) (Some ''secret'')) \<noteq> None \<and>
   password (Docker_init ''conn'' (Some []) (Some ''secret'')) \<noteq> None \<and>
   Docker_run (Docker_init ''conn'' (Some []) (Some ''secret'')) [] ''img'' None True []
     = Inr (Command ''docker run img'') \<and>
   \<not> prefix ''docker login'' ''docker run img''"
  by (simp add: Docker_init_def Docker_run_def Docker_login_command_def truthy_def quote_eval)

text \<open>
  C10. If the username or the password is missing or the empty string,
  \<open>_login_command\<close> returns \<open>None\<close>, and \<open>run\<close> and \<open>build\<close> with
  \<open>return_command=True\<close> return the bare assembled command, which does not start with
  \<open>docker login\<close>; every call behaves as on the same component with both credentials
  absent.
\<close>

theorem empty_credentials_no_login:
  assumes "username d = None \<or> username d = Some [] \<or> password d = None \<or> password d = Some []"
  shows "Docker_login_command d = None \<and>
         Docker_run d flags img app True kw =
           Inr (Command (join '' '' (map shlex_quote
                  ([''docker'', ''run''] @ flags @ [img] @ (case app of None \<Rightarrow> [] | Some xs \<Rightarrow> xs))))) \<and>
         Docker_build d img flags path True kw =
           Inr (Command (join '' '' (map shlex_quote ([''docker'', ''build''] @ flags @ [''-t'', img, path])))) \<and>
         \<not> prefix ''docker login'' (join '' '' (map shlex_quote
                  ([''docker'', ''run''] @ flags @ [img] @ (case app of None \<Rightarrow> [] | Some xs \<Rightarrow> xs)))) \<and>
         \<not> prefix ''docker login''
              (join '' '' (map shlex_quote ([''docker'', ''build''] @ flags @ [''-t'', img, path]))) \<and>
         Docker_run d flags img app rc kw =
           Docker_run (d\<lparr>username := None, password := None\<rparr>) flags img app rc kw \<and>
         Docker_build d img flags path rc kw =
           Docker_build (d\<lparr>username := None, password := None\<rparr>) img flags path rc kw"
proof (intro conjI)
  have e: "login_prefix d = []"
    using login_prefix_empty [OF assms] by simp
  have e': "login_prefix (d\<lparr>username := None, password := None\<rparr>) = []"
    by (rule login_prefix_empty(2)) simp
  have s: "Docker_ssh (d\<lparr>username := None, password := None\<rparr>) = Docker_ssh d"
    by (intro ext) (simp add: Docker_ssh_def)
  show "Docker_login_command d = None"
    using login_prefix_empty [OF assms] by simp
  show "Docker_run d flags img app True kw =
           Inr (Command (join '' '' (map shlex_quote
                  ([''docker'', ''run''] @ flags @ [img] @ (case app of None \<Rightarrow> [] | Some xs \<Rightarrow> xs)))))"
    unfolding run_unfold e by simp
  show "Docker_build d img flags path True kw =
           Inr (Command (join '' '' (map shlex_quote ([''docker'', ''build''] @ flags @ [''-t'', img, path]))))"
    unfolding build_unfold e by simp
  show "\<not> prefix ''docker login'' (join '' '' (map shlex_quote
                  ([''docker'', ''run''] @ flags @ [img] @ (case app of None \<Rightarrow> [] | Some xs \<Rightarrow> xs))))"
    by (rule no_login_prefix_run)
  show "\<not> prefix ''docker login''
              (join '' '' (map shlex_quote ([''docker'', ''build''] @ flags @ [''-t'', img, path])))"
    by (rule no_login_prefix_build)
  show "Docker_run d flags img app rc kw =
           Docker_run (d\<lparr>username := None, password := None\<rparr>) flags img app rc kw"
    unfolding run_unfold e e' s by (rule refl)
  show "Docker_build d img flags path rc kw =
           Docker_build (d\<lparr>username := None, password := None\<rparr>) img flags path rc kw"
    unfolding build_unfold e e' s by (rule refl)
qed

theorem empty_credentials_no_login_witness:
  "Docker_login_command (Docker_init ''c'' (Some ''user'') (Some [])) = None \<and>
   Docker_run (Docker_init ''c'' (Some ''user'') (Some [])) [''-d''] ''img'' None True []
     = Inr (Command ''docker run -d img'') \<and>
   Docker_build (Docker_init ''c'' (Some ''user'') (Some [])) ''img'' [''-d''] ''.'' True []
     = Inr (Command ''docker build -d -t img .'')"
proof -
  let ?d = "Docker_init ''c'' (Some ''user'') (Some [])"
  have h: "username ?d = None \<or> username ?d = Some [] \<or> password ?d = None \<or> password ?d = Some []"
    by (simp add: Docker_init_def)
  note t = empty_credentials_no_login [OF h, where flags = "[''-d'']" and img = "''img''"
      and app = None and kw = "[]" and path = "''.''" and rc = True]
  have "Docker_login_command ?d = None"
    by (rule t [THEN conjunct1])
  moreover have "Docker_run ?d [''-d''] ''img'' None True [] = Inr (Command ''docker run -d img'')"
    using t [THEN conjunct2, THEN conjunct1] by (simp add: quote_eval)
  moreover have "Docker_build ?d ''img'' [''-d''] ''.'' True [] = Inr (Command ''docker build -d -t img .'')"
    using t [THEN conjunct2, THEN conjunct2, THEN conjunct1] by (simp add: quote_eval)
  ultimately show ?thesis by blast
qed

section \<open>The layout of docker build\<close>

text \<open>
  C5. \<open>Docker.build\<close> assembles \<open>docker build <flags> -t <image_name> <project_path>\<close>:
  the returned string is the quoted tokens in that order after the login part, and the
  last command a shell reads from it has exactly these words, so \<open>-t\<close> and the image
  name stand immediately before the project path. Without credentials, the flags
  \<open>build_arg({"arg1": "value1"})\<close>, image \<open>my_image\<close> and path \<open>.\<close> give
  \<open>docker build --build-arg arg1=value1 -t my_image .\<close>.
\<close>

theorem build_layout:
  "Docker_build d img flags path rc kw =
     (let c = (case Docker_login_command d of None \<Rightarrow> [] | Some l \<Rightarrow> l @ '' && '') @
              join '' '' (map shlex_quote ([''docker'', ''build''] @ flags @ [''-t'', img, path]))
      in if rc then Inr (Command c) else Docker_ssh d c kw) \<and>
   map_option last (sh_parse ((case Docker_login_command d of None \<Rightarrow> [] | Some l \<Rightarrow> l @ '' && '') @
            join '' '' (map shlex_quote ([''docker'', ''build''] @ flags @ [''-t'', img, path]))))
     = Some ([''docker'', ''build''] @ flags @ [''-t'', img, path]) \<and>
   Docker_build (Docker_init conn None None) ''my_image''
       (DockerBuildFlag_build_arg [(''arg1'', ''value1'')]) ''.'' True kw
     = Inr (Command ''docker build --build-arg arg1=value1 -t my_image .'')"
proof (intro conjI)
  show "Docker_build d img flags path rc kw =
     (let c = (case Docker_login_command d of None \<Rightarrow> [] | Some l \<Rightarrow> l @ '' && '') @
              join '' '' (map shlex_quote ([''docker'', ''build''] @ flags @ [''-t'', img, path]))
      in if rc then Inr (Command c) else Docker_ssh d c kw)"
    unfolding Let_def login_prefix_def [symmetric] by (rule build_unfold)
  have "sh_parse (login_prefix d @
            join '' '' (map shlex_quote ([''docker'', ''build''] @ flags @ [''-t'', img, path])))
        = Some ((if truthy (username d) \<and> truthy (password d)
            then [[''docker'', ''login'', ''-u'', the (username d), ''-p'', the (password d)]]
            else []) @ [[''docker'', ''build''] @ flags @ [''-t'', img, path]])"
    by (rule parse_with_login) simp
  then show "map_option last (sh_parse ((case Docker_login_command d of None \<Rightarrow> [] | Some l \<Rightarrow> l @ '' && '') @
            join '' '' (map shlex_quote ([''docker'', ''build''] @ flags @ [''-t'', img, path]))))
     = Some ([''docker'', ''build''] @ flags @ [''-t'', img, path])"
    unfolding login_prefix_def [symmetric] by simp
  show "Docker_build (Docker_init conn None None) ''my_image''
       (DockerBuildFlag_build_arg [(''arg1'', ''value1'')]) ''.'' True kw
     = Inr (Command ''docker build --build-arg arg1=value1 -t my_image .'')"
    by (simp add: Docker_build_def Docker_init_def Docker_login_command_def truthy_def
        DockerBuildFlag_build_arg_def quote_eval)
qed

theorem build_layout_witness:
  "Docker_build (Docker_init ''c'' None None) ''repo/app:1.0'' DockerBuildFlag_no_cache ''my dir'' True []
     = Inr (Command (''docker build --no-cache -t repo/app:1.0 '' @ [CHR 0x27] @ ''my dir'' @ [CHR 0x27])) \<and>
   map_option last (sh_parse (''docker build --no-cache -t repo/app:1.0 '' @ [CHR 0x27] @ ''my dir'' @ [CHR 0x27]))
     = Some [''docker'', ''build'', ''--no-cache'', ''-t'', ''repo/app:1.0'', ''my dir'']"
  using build_layout [of "Docker_init ''c'' None None" "''repo/app:1.0''" DockerBuildFlag_no_cache
      "''my dir''" True "[]"]
  by (simp add: Docker_init_def Docker_login_command_def truthy_def quote_eval
      DockerBuildFlag_no_cache_def replace_squote_def)

section \<open>Concrete commands\<close>

text \<open>
  C6. A Docker component without credentials, run with the flags
  \<open>temp_container() + name("x")\<close>, image \<open>img\<close>, no application arguments and
  \<open>return_command=True\<close>, returns exactly \<open>docker run --rm --name x img\<close>, with no
  login prefix.
\<close>

theorem run_example:
  "Docker_run (Docker_init conn None None)
     (DockerRunFlag_temp_container @ DockerRunFlag_name ''x'') ''img'' None True kw
   = Inr (Command ''docker run --rm --name x img'')"
  by (simp add: Docker_run_def Docker_init_def Docker_login_command_def truthy_def
      DockerRunFlag_temp_container_def DockerRunFlag_name_def quote_eval)

text \<open>
  C8. \<open>Git.clone("https://example/repo.git")\<close> with an explicitly empty flag list, the
  default directory and \<open>return_command=True\<close> returns exactly
  \<open>git clone https://example/repo.git .\<close>.
\<close>

theorem clone_example:
  "Git_clone Git_init ''https://example/repo.git'' None (Some []) True kw
   = Inr (Command ''git clone https://example/repo.git .'')"
  by (simp add: Git_clone_def quote_eval)

text \<open>
  C7. The claim: \<open>Git.clone\<close> called without a \<open>flags\<close> argument behaves as with an
  empty flag list and succeeds. The code does not: \<open>flags\<close> is then \<open>None\<close>, and
  unpacking it into the argument list raises \<open>TypeError\<close> before any command is built.
\<close>

theorem clone_default_flags_raises:
  "Git_clone Git_init ''https://example/repo.git'' None None True [] = Inl TypeError"
  by (simp add: Git_clone_def)

text \<open>
  C9. With \<open>return_command=False\<close>, \<open>Git.clone\<close> on a Git object as its constructor
  leaves it never returns an execution handle: the constructor stores no
  \<open>ssh_conn_id\<close>, so the read of that attribute in \<open>_ssh\<close> raises
  \<open>AttributeError\<close> (unless a \<open>TypeError\<close> was raised before it, for missing flags
  or a duplicate \<open>command\<close> keyword).
\<close>

theorem clone_execute_always_fails:
  "getattr Git_init ''ssh_conn_id'' = Inl AttributeError \<and>
   Git_clone Git_init url dir flags False kw =
     Inl (if flags = None \<or> ''command'' \<in> set (map fst kw) then TypeError else AttributeError)"
  by (cases flags) (simp_all add: Git_clone_def Git_ssh_def getattr_def Git_init_def)


end
